theory Spec2Isabelle
  imports
    Main
    "HOL-Library.Multiset"
    "HOL-Library.Sublist"
    "HOL-Library.Char_ord"
    "HOL-Library.List_Lexorder"
    "HOL-Library.Product_Lexorder"
begin

section \<open>Layered-import checker (scripts/check_layered_imports.py)\<close>

text \<open>
  A shallow embedding of the script. Python \<open>str\<close> values are \<^typ>\<open>string\<close> (lists of
  characters, a character standing for the code point of its number, below 256; they are
  compared lexicographically by character code as Python compares code points),
  Python \<open>int\<close> is \<^typ>\<open>int\<close>, \<open>set[str]\<close> is \<^typ>\<open>string set\<close>, and
  \<open>dict[str, set[str]]\<close> is a map \<^typ>\<open>string \<rightharpoonup> string set\<close>. Every exception the script
  can raise is a value of \<open>error\<close>, returned on the left of a sum.
\<close>

subsection \<open>String operations of the Python runtime\<close>

text \<open>
  \<open>str.isspace\<close> on the code points below 256: TAB, LF, VT, FF, CR, FS, GS, RS, US, SPACE,
  NEXT LINE (U+0085) and NO-BREAK SPACE (U+00A0).
\<close>

definition is_space :: "char \<Rightarrow> bool" where
  "is_space c = ((of_char c :: nat) \<in> {9, 10, 11, 12, 13, 28, 29, 30, 31, 32, 133, 160})"

text \<open>\<open>s.strip()\<close>: leading and trailing whitespace removed.\<close>

definition strip :: "string \<Rightarrow> string" where
  "strip s = rev (dropWhile is_space (rev (dropWhile is_space s)))"

text \<open>\<open>s.split(c)\<close> for a one-character separator: always at least one piece.\<close>

fun split_on :: "char \<Rightarrow> string \<Rightarrow> string list" where
  "split_on c [] = [[]]"
| "split_on c (x # xs) =
     (if x = c then [] # split_on c xs
      else (let r = split_on c xs in (x # hd r) # tl r))"

text \<open>\<open>s.split(c, 1)\<close>: cut at the first separator only, if there is one.\<close>

definition split_max1 :: "char \<Rightarrow> string \<Rightarrow> string list" where
  "split_max1 c s =
     (case dropWhile (\<lambda>x. x \<noteq> c) s of
        [] \<Rightarrow> [s]
      | _ # rest \<Rightarrow> [takeWhile (\<lambda>x. x \<noteq> c) s, rest])"

text \<open>\<open>s.startswith(p)\<close> and \<open>s.removeprefix(p)\<close>.\<close>

definition startswith :: "string \<Rightarrow> string \<Rightarrow> bool" where
  "startswith s p = (take (length p) s = p)"

definition removeprefix :: "string \<Rightarrow> string \<Rightarrow> string" where
  "removeprefix s p = (if startswith s p then drop (length p) s else s)"

subsection \<open>Paths\<close>

text \<open>
  A \<open>pathlib.Path\<close> is modelled by its tuple of components, \<open>Path.parts\<close>; an absolute
  POSIX path has its anchor, \<open>''/''\<close> or \<open>''//''\<close>, as its first component.
\<close>

type_synonym path = "string list"

definition is_anchor :: "string \<Rightarrow> bool" where
  "is_anchor part = (part = ''/'' \<or> part = ''//'')"

definition is_absolute :: "path \<Rightarrow> bool" where
  "is_absolute p = (case p of [] \<Rightarrow> False | a # rest \<Rightarrow> is_anchor a)"

fun join_parts :: "string list \<Rightarrow> string" where
  "join_parts [] = []"
| "join_parts [p] = p"
| "join_parts (p # q # ps) = p @ ''/'' @ join_parts (q # ps)"

text \<open>\<open>str(path)\<close> of a POSIX path.\<close>

definition path_str :: "path \<Rightarrow> string" where
  "path_str p =
     (case p of
        [] \<Rightarrow> ''.''
      | a # rest \<Rightarrow> if is_anchor a then a @ join_parts rest else join_parts (a # rest))"

text \<open>\<open>path.name\<close>: the final component, the empty string for \<open>.\<close> and for the bare anchor.\<close>

definition path_name :: "path \<Rightarrow> string" where
  "path_name p =
     (let tail = (case p of [] \<Rightarrow> [] | a # rest \<Rightarrow> if is_anchor a then rest else a # rest)
      in if tail = [] then [] else last tail)"

subsection \<open>Errors\<close>

text \<open>
  The exceptions that can leave the script: \<open>SystemExit\<close> with a message, \<open>ValueError\<close>
  with a message (a malformed forbid entry, or a source text that \<open>ast.parse\<close> refuses
  with \<open>ValueError\<close>), \<open>NotInSubpath\<close> (the \<open>ValueError\<close> of \<open>relative_to\<close>, with
  the two paths), \<open>IndexError\<close> (\<open>relative.parts[0]\<close> on an empty tuple), and
  \<open>ReadFailure\<close> for whatever \<open>read_text\<close> raises. The script catches \<open>SyntaxError\<close>
  only.
\<close>

datatype error =
    SystemExit string
  | ValueError string
  | NotInSubpath path path
  | IndexError
  | ReadFailure

text \<open>
  \<open>file_path.relative_to(root_dir)\<close>: the components after those of the root; an absolute
  path is not relative to the empty path \<open>.\<close>.
\<close>

definition relative_to :: "path \<Rightarrow> path \<Rightarrow> error + path" where
  "relative_to file_path root_dir =
     (if prefix root_dir file_path \<and> \<not> (root_dir = [] \<and> is_absolute file_path)
      then Inr (drop (length root_dir) file_path)
      else Inl (NotInSubpath file_path root_dir))"

subsection \<open>Layer classifier\<close>

definition file_layer :: "path \<Rightarrow> path \<Rightarrow> string set \<Rightarrow> error + string" where
  "file_layer root_dir file_path layer_names =
     (case relative_to file_path root_dir of
        Inl e \<Rightarrow> Inl e
      | Inr relative \<Rightarrow>
          if length relative = 1 then Inr ''root''
          else (case relative of
                  [] \<Rightarrow> Inl IndexError
                | first # _ \<Rightarrow> if first \<in> layer_names then Inr first else Inr ''other''))"

definition imported_layer :: "string \<Rightarrow> string \<Rightarrow> string set \<Rightarrow> string" where
  "imported_layer imported_module package_name layer_names =
     (if imported_module = [] then ''other''
      else if imported_module = package_name then ''root''
      else (let pfx = package_name @ ''.'' in
        if \<not> startswith imported_module pfx then ''other''
        else (let remainder = removeprefix imported_module pfx;
                  first = hd (split_max1 (CHR ''.'') remainder)
              in if first \<in> layer_names then first else ''root'')))"

subsection \<open>Syntax trees and the import walk\<close>

text \<open>
  The result of \<open>ast.parse\<close>, as far as the script looks at it: \<open>Import\<close> statements
  (names, lineno, col_offset), \<open>ImportFrom\<close> statements (module, names, level, lineno,
  col_offset), the \<open>alias\<close> nodes below them, and any other node with its child nodes
  in field order.
\<close>

datatype ast_alias = Alias (alias_name: string) (asname: "string option")

datatype node =
    Import "ast_alias list" int int
  | ImportFrom "string option" "ast_alias list" int int int
  | AliasNode ast_alias
  | Other "node list"

fun iter_child_nodes :: "node \<Rightarrow> node list" where
  "iter_child_nodes (Import names lineno col) = map AliasNode names"
| "iter_child_nodes (ImportFrom module names level lineno col) = map AliasNode names"
| "iter_child_nodes (AliasNode a) = []"
| "iter_child_nodes (Other children) = children"

fun weight :: "node \<Rightarrow> nat" where
  "weight (Import names lineno col) = Suc (length names)"
| "weight (ImportFrom module names level lineno col) = Suc (length names)"
| "weight (AliasNode a) = 1"
| "weight (Other children) = Suc (sum_list (map weight children))"

text \<open>
  \<open>ast.walk\<close>: a queue starting with the tree; the front node is taken, its children are
  put at the back, and the node is yielded (breadth first).
\<close>

function walk_queue :: "node list \<Rightarrow> node list" where
  "walk_queue [] = []"
| "walk_queue (n # todo) = n # walk_queue (todo @ iter_child_nodes n)"
  by pat_completeness auto
termination
proof (relation "measure (\<lambda>q. sum_list (map weight q))")
  show "wf (measure (\<lambda>q. sum_list (map weight q)))"
    by simp
next
  fix n :: node and todo :: "node list"
  have "sum_list (map (\<lambda>a. Suc 0) names) = length names" for names :: "ast_alias list"
    by (induction names) simp_all
  then have "sum_list (map weight (iter_child_nodes n)) < weight n"
    by (cases n) (simp_all add: comp_def)
  then show "(todo @ iter_child_nodes n, n # todo) \<in> measure (\<lambda>q. sum_list (map weight q))"
    by simp
qed

definition walk :: "node \<Rightarrow> node list" where
  "walk tree = walk_queue [tree]"

type_synonym import_ref = "string \<times> int \<times> int"

text \<open>The body of \<open>_iter_imports\<close>, run over the nodes that the walk yields.\<close>

fun iter_imports_from :: "node list \<Rightarrow> import_ref list" where
  "iter_imports_from [] = []"
| "iter_imports_from (Import names lineno col # rest) =
     map (\<lambda>a. (alias_name a, lineno, col)) names @ iter_imports_from rest"
| "iter_imports_from (ImportFrom module names level lineno col # rest) =
     (case module of
        None \<Rightarrow> iter_imports_from rest
      | Some m \<Rightarrow> (m, lineno, col) # iter_imports_from rest)"
| "iter_imports_from (AliasNode a # rest) = iter_imports_from rest"
| "iter_imports_from (Other children # rest) = iter_imports_from rest"

definition iter_imports :: "node \<Rightarrow> import_ref list" where
  "iter_imports tree = iter_imports_from (walk tree)"

text \<open>
  For comparison with the walk: all nodes of a tree, the node before its subtrees, and the
  references that one statement stands for in the specification (one per name of an
  \<open>import\<close>, one for a \<open>from X import\<close>, none without a module).
\<close>

fun nodes :: "node \<Rightarrow> node list" where
  "nodes (Import names lineno col) = Import names lineno col # map AliasNode names"
| "nodes (ImportFrom module names level lineno col) =
     ImportFrom module names level lineno col # map AliasNode names"
| "nodes (AliasNode a) = [AliasNode a]"
| "nodes (Other children) = Other children # concat (map nodes children)"

fun stmt_refs :: "node \<Rightarrow> import_ref list" where
  "stmt_refs (Import names lineno col) = map (\<lambda>a. (alias_name a, lineno, col)) names"
| "stmt_refs (ImportFrom (Some m) names level lineno col) = [(m, lineno, col)]"
| "stmt_refs (ImportFrom None names level lineno col) = []"
| "stmt_refs (AliasNode a) = []"
| "stmt_refs (Other children) = []"

subsection \<open>Violations of one file\<close>

record ImportViolation =
  file_path :: path
  file_layer_name :: string
  imported_module :: string
  imported_layer_name :: string
  lineno :: int
  col_offset :: int
  reason :: string

text \<open>
  What reading and parsing a file gives: \<open>Unreadable\<close> when \<open>read_text\<close> raises,
  \<open>SyntaxErr lineno offset msg\<close> when \<open>ast.parse\<close> raises \<open>SyntaxError\<close> with these
  attributes, \<open>ParseValueError msg\<close> when \<open>ast.parse\<close> refuses the text with a
  \<open>ValueError\<close> (a text with a NUL character, ``source code string cannot contain null
  bytes''), \<open>Module tree\<close> for a syntax tree.
\<close>

datatype source =
    Unreadable
  | SyntaxErr "int option" "int option" string
  | ParseValueError string
  | Module node

text \<open>\<open>x or d\<close> for an optional integer \<open>x\<close>: \<open>None\<close> and \<open>0\<close> are false.\<close>

definition int_or :: "int option \<Rightarrow> int \<Rightarrow> int" where
  "int_or x d = (case x of None \<Rightarrow> d | Some n \<Rightarrow> if n = 0 then d else n)"

text \<open>The loop of \<open>_violations_for_file\<close> over the import references, with its list \<open>violations\<close>.\<close>

fun check_imports ::
  "path \<Rightarrow> string \<Rightarrow> string \<Rightarrow> string set \<Rightarrow> (string \<rightharpoonup> string set) \<Rightarrow>
   import_ref list \<Rightarrow> ImportViolation list \<Rightarrow> ImportViolation list" where
  "check_imports fp layer package_name layer_names forbid [] violations = violations"
| "check_imports fp layer package_name layer_names forbid ((module, line, col) # refs) violations =
     (let il = imported_layer module package_name layer_names in
      if il \<in> {''root'', ''other''}
      then check_imports fp layer package_name layer_names forbid refs violations
      else (case forbid layer of
              None \<Rightarrow> check_imports fp layer package_name layer_names forbid refs violations
            | Some forbidden_targets \<Rightarrow>
                if forbidden_targets = {}
                then check_imports fp layer package_name layer_names forbid refs violations
                else if il \<in> forbidden_targets
                then check_imports fp layer package_name layer_names forbid refs
                       (violations @
                        [\<lparr>file_path = fp, file_layer_name = layer, imported_module = module,
                          imported_layer_name = il, lineno = line, col_offset = col,
                          reason = ''Forbidden import direction by configured layer rules.''\<rparr>])
                else check_imports fp layer package_name layer_names forbid refs violations))"

text \<open>
  \<open>_violations_for_file\<close>. The file is read through \<open>read_source\<close>, and only when its
  layer is neither \<open>root\<close> nor \<open>other\<close>.
\<close>

definition violations_for_file ::
  "path \<Rightarrow> path \<Rightarrow> string \<Rightarrow> string set \<Rightarrow> (string \<rightharpoonup> string set) \<Rightarrow> (path \<Rightarrow> source) \<Rightarrow>
   error + ImportViolation list" where
  "violations_for_file root_dir fp package_name layer_names forbid read_source =
     (case file_layer root_dir fp layer_names of
        Inl e \<Rightarrow> Inl e
      | Inr layer \<Rightarrow>
          if layer \<in> {''root'', ''other''} then Inr []
          else (case read_source fp of
                  Unreadable \<Rightarrow> Inl ReadFailure
                | ParseValueError msg \<Rightarrow> Inl (ValueError msg)
                | SyntaxErr exc_lineno exc_offset msg \<Rightarrow>
                    Inr [\<lparr>file_path = fp, file_layer_name = layer,
                          imported_module = ''(parse error)'', imported_layer_name = ''other'',
                          lineno = int_or exc_lineno 1, col_offset = int_or exc_offset 0,
                          reason = ''SyntaxError: '' @ msg\<rparr>]
                | Module tree \<Rightarrow>
                    Inr (check_imports fp layer package_name layer_names forbid
                           (iter_imports tree) [])))"

text \<open>
  The rule of the specification for one import reference of a file in layer \<open>a\<close>: both
  layers are checkable and the forbidden mapping has an entry for \<open>a\<close> that contains the
  import's layer.
\<close>

definition forbidden_edge :: "(string \<rightharpoonup> string set) \<Rightarrow> string \<Rightarrow> string \<Rightarrow> bool" where
  "forbidden_edge forbid a b =
     (a \<notin> {''root'', ''other''} \<and> b \<notin> {''root'', ''other''} \<and>
      (case forbid a of None \<Rightarrow> False | Some targets \<Rightarrow> b \<in> targets))"

definition rule_violation :: "path \<Rightarrow> string \<Rightarrow> string \<Rightarrow> string set \<Rightarrow> import_ref \<Rightarrow> ImportViolation" where
  "rule_violation fp layer package_name layer_names r =
     (case r of (module, line, col) \<Rightarrow>
        \<lparr>file_path = fp, file_layer_name = layer, imported_module = module,
         imported_layer_name = imported_layer module package_name layer_names,
         lineno = line, col_offset = col,
         reason = ''Forbidden import direction by configured layer rules.''\<rparr>)"

subsection \<open>Command-line configuration\<close>

text \<open>\<open>_parse_csv\<close>: the stripped, non-empty pieces between commas.\<close>

definition parse_csv :: "string \<Rightarrow> string list" where
  "parse_csv v = map strip (filter (\<lambda>part. strip part \<noteq> []) (split_on (CHR '','') v))"

text \<open>
  The loop of \<open>_parse_forbid_entries\<close> with its dictionary \<open>forbid\<close>; the last branch is
  the tuple unpacking of a split that did not give two pieces.
\<close>

fun parse_forbid_loop :: "string list \<Rightarrow> (string \<rightharpoonup> string set) \<Rightarrow> error + (string \<rightharpoonup> string set)" where
  "parse_forbid_loop [] forbid = Inr forbid"
| "parse_forbid_loop (entry # entries) forbid =
     (if CHR '':'' \<notin> set entry
      then Inl (ValueError (''Invalid --forbid entry (expected 'from:to1,to2'): '' @ entry))
      else (case split_max1 (CHR '':'') entry of
              [src0, dst_csv] \<Rightarrow>
                (let src = strip src0 in
                 if src = []
                 then Inl (ValueError (''Invalid --forbid entry (empty source layer): '' @ entry))
                 else (let destinations = set (parse_csv dst_csv) in
                   if destinations = {}
                   then Inl (ValueError (''Invalid --forbid entry (empty destinations): '' @ entry))
                   else parse_forbid_loop entries
                          (forbid(src \<mapsto>
                             (case forbid src of None \<Rightarrow> {} | Some targets \<Rightarrow> targets)
                             \<union> destinations))))
            | _ \<Rightarrow> Inl (ValueError ''not enough values to unpack (expected 2, got 1)'')))"

definition parse_forbid_entries :: "string list \<Rightarrow> error + (string \<rightharpoonup> string set)" where
  "parse_forbid_entries entries = parse_forbid_loop entries Map.empty"

definition default_forbid :: "string \<rightharpoonup> string set" where
  "default_forbid =
     [''domain'' \<mapsto> {''dataset'', ''adaptor'', ''service''},
      ''dataset'' \<mapsto> {''adaptor'', ''service''},
      ''adaptor'' \<mapsto> {''dataset'', ''service''}]"

text \<open>The parsed arguments (\<open>args.root\<close>, \<open>args.package_name\<close>, ...).\<close>

record args =
  args_root :: path
  args_package_name :: string
  args_layers :: string
  args_forbid :: "string list"
  args_include_tests :: bool

text \<open>
  The file system as the run sees it: \<open>exists\<close> and \<open>is_dir\<close> of a path, the paths that
  \<open>rglob("*.py")\<close> yields, in its order, and the result of reading and parsing a file.
\<close>

record filesystem =
  fs_exists :: "path \<Rightarrow> bool"
  fs_is_dir :: "path \<Rightarrow> bool"
  fs_rglob_py :: "path \<Rightarrow> path list"
  fs_source :: "path \<Rightarrow> source"

definition iter_python_files :: "filesystem \<Rightarrow> path \<Rightarrow> bool \<Rightarrow> path list" where
  "iter_python_files fs root_dir include_tests =
     filter (\<lambda>p. \<not> (''__pycache__'' \<in> set p) \<and> \<not> (\<not> include_tests \<and> ''tests'' \<in> set p))
       (fs_rglob_py fs root_dir)"

text \<open>
  Lines 187 to 200 of \<open>main\<close>: the root check, the package name, the declared layers and the
  forbidden mapping that the scan uses.
\<close>

record config =
  cfg_root_dir :: path
  cfg_package_name :: string
  cfg_layer_names :: "string set"
  cfg_forbid :: "string \<rightharpoonup> string set"

definition configure :: "args \<Rightarrow> filesystem \<Rightarrow> error + config" where
  "configure a fs =
     (let root_dir = args_root a in
      if \<not> fs_exists fs root_dir \<or> \<not> fs_is_dir fs root_dir
      then Inl (SystemExit (''--root must be an existing directory: '' @ path_str root_dir))
      else (let package_name =
                  (if strip (args_package_name a) \<noteq> [] then strip (args_package_name a)
                   else path_name root_dir);
                layer_names = set (parse_csv (args_layers a))
            in case parse_forbid_entries (args_forbid a) of
                 Inl e \<Rightarrow> Inl e
               | Inr forbid \<Rightarrow>
                   Inr \<lparr>cfg_root_dir = root_dir, cfg_package_name = package_name,
                        cfg_layer_names = layer_names,
                        cfg_forbid = (if forbid = Map.empty then default_forbid else forbid)\<rparr>))"

subsection \<open>The scan and the report\<close>

text \<open>The loop of \<open>main\<close> over the discovered files, with its list \<open>all_violations\<close>.\<close>

fun scan_files :: "config \<Rightarrow> (path \<Rightarrow> source) \<Rightarrow> path list \<Rightarrow> ImportViolation list \<Rightarrow>
    error + ImportViolation list" where
  "scan_files cfg read_source [] all_violations = Inr all_violations"
| "scan_files cfg read_source (fp # fps) all_violations =
     (case violations_for_file (cfg_root_dir cfg) fp (cfg_package_name cfg) (cfg_layer_names cfg)
             (cfg_forbid cfg) read_source of
        Inl e \<Rightarrow> Inl e
      | Inr vs \<Rightarrow> scan_files cfg read_source fps (all_violations @ vs))"

text \<open>\<open>str\<close> of an integer.\<close>

fun str_nat :: "nat \<Rightarrow> string" where
  "str_nat n =
     (if n < 10 then [''0123456789'' ! n]
      else str_nat (n div 10) @ [''0123456789'' ! (n mod 10)])"

definition str_int :: "int \<Rightarrow> string" where
  "str_int i = (if i < 0 then ''-'' @ str_nat (nat (- i)) else str_nat (nat i))"

definition format_violation :: "ImportViolation \<Rightarrow> string" where
  "format_violation v =
     (let location = path_str (file_path v) @ '':'' @ str_int (lineno v) @ '':'' @
                     str_int (col_offset v + 1)
      in location @ '' ['' @ file_layer_name v @ '' -> '' @ imported_layer_name v @ ''] '' @
         imported_module v @ '' :: '' @ reason v)"

text \<open>The sort key of the listing, and \<open>sorted\<close> (a stable sort) by it.\<close>

definition violation_key :: "ImportViolation \<Rightarrow> string \<times> int \<times> int" where
  "violation_key v = (path_str (file_path v), lineno v, col_offset v)"

definition sorted_violations :: "ImportViolation list \<Rightarrow> ImportViolation list" where
  "sorted_violations all_violations = sort_key violation_key all_violations"

text \<open>\<open>main\<close>: the value it returns and the lines it prints, or the exception that leaves it.\<close>

definition main :: "args \<Rightarrow> filesystem \<Rightarrow> error + int \<times> string list" where
  "main a fs =
     (case configure a fs of
        Inl e \<Rightarrow> Inl e
      | Inr cfg \<Rightarrow>
          (case scan_files cfg (fs_source fs)
                  (iter_python_files fs (cfg_root_dir cfg) (args_include_tests a)) [] of
             Inl e \<Rightarrow> Inl e
           | Inr all_violations \<Rightarrow>
               if all_violations = [] then Inr (0, [''OK: no layered-import violations found.''])
               else Inr (1, ''Layered-import violations:'' #
                            map (\<lambda>v. ''- '' @ format_violation v)
                              (sorted_violations all_violations))))"

text \<open>
  The status of the process for \<open>raise SystemExit(main())\<close>: the integer that \<open>main\<close>
  returns; when an exception leaves \<open>main\<close>, Python prints the message of a
  \<open>SystemExit\<close> that carries a string, or the traceback of any other exception, to the error
  stream and the status is 1.
\<close>

definition exit_status :: "error + int \<times> string list \<Rightarrow> int" where
  "exit_status r = (case r of Inl e \<Rightarrow> 1 | Inr (code, printed) \<Rightarrow> code)"

subsection \<open>The specification's reading of a forbid entry\<close>

text \<open>
  An entry \<open>from:to1,to2\<close>: the source is what stands before the first colon, stripped;
  the destinations are the non-empty stripped pieces after it. An entry is malformed when it
  has no colon, an empty source or no destination; \<open>entry_error\<close> is the message for it.
\<close>

definition entry_source :: "string \<Rightarrow> string" where
  "entry_source entry = strip (takeWhile (\<lambda>x. x \<noteq> CHR '':'') entry)"

definition entry_destinations :: "string \<Rightarrow> string set" where
  "entry_destinations entry = set (parse_csv (tl (dropWhile (\<lambda>x. x \<noteq> CHR '':'') entry)))"

definition malformed_entry :: "string \<Rightarrow> bool" where
  "malformed_entry entry =
     (CHR '':'' \<notin> set entry \<or> entry_source entry = [] \<or> entry_destinations entry = {})"

definition entry_error :: "string \<Rightarrow> string" where
  "entry_error entry =
     (if CHR '':'' \<notin> set entry then ''Invalid --forbid entry (expected 'from:to1,to2'): '' @ entry
      else if entry_source entry = [] then ''Invalid --forbid entry (empty source layer): '' @ entry
      else ''Invalid --forbid entry (empty destinations): '' @ entry)"

text \<open>A name as the parser lets it into the forbidden mapping: not empty, no outer whitespace.\<close>

definition stripped_name :: "string \<Rightarrow> bool" where
  "stripped_name s = (s \<noteq> [] \<and> strip s = s)"

definition well_shaped :: "(string \<rightharpoonup> string set) \<Rightarrow> bool" where
  "well_shaped forbid =
     (\<forall>k targets. forbid k = Some targets \<longrightarrow>
        stripped_name k \<and> targets \<noteq> {} \<and> (\<forall>d\<in>targets. stripped_name d))"

text \<open>A listing in which every violation has a key below that of the next one.\<close>

definition strictly_ascending :: "ImportViolation list \<Rightarrow> bool" where
  "strictly_ascending vs = sorted_wrt (\<lambda>v w. violation_key v < violation_key w) vs"

subsection \<open>Declared names and example inputs\<close>

text \<open>The forbidden mapping of a configuration mentions declared layer names only.\<close>

definition only_declared :: "config \<Rightarrow> bool" where
  "only_declared cfg =
     (dom (cfg_forbid cfg) \<subseteq> cfg_layer_names cfg \<and>
      \<Union> (ran (cfg_forbid cfg)) \<subseteq> cfg_layer_names cfg)"

text \<open>A file system in which every path is an existing directory and nothing is discovered.\<close>

definition empty_tree_fs :: filesystem where
  "empty_tree_fs =
     \<lparr>fs_exists = (\<lambda>p. True), fs_is_dir = (\<lambda>p. True), fs_rglob_py = (\<lambda>p. []),
      fs_source = (\<lambda>p. Unreadable)\<rparr>"

text \<open>A file system in which no path exists.\<close>

definition nothing_fs :: filesystem where
  "nothing_fs =
     \<lparr>fs_exists = (\<lambda>p. False), fs_is_dir = (\<lambda>p. False), fs_rglob_py = (\<lambda>p. []),
      fs_source = (\<lambda>p. Unreadable)\<rparr>"

text \<open>\<open>--root pkg --layers a,b --forbid x:y\<close> and \<open>--root missing\<close>.\<close>

definition undeclared_rule_args :: args where
  "undeclared_rule_args =
     \<lparr>args_root = [''pkg''], args_package_name = '''', args_layers = ''a,b'',
      args_forbid = [''x:y''], args_include_tests = False\<rparr>"

definition missing_root_args :: args where
  "missing_root_args =
     \<lparr>args_root = [''missing''], args_package_name = '''',
      args_layers = ''domain,dataset,adaptor,service'', args_forbid = [],
      args_include_tests = False\<rparr>"

text \<open>What one file adds to \<open>all_violations\<close> in a scan that completes.\<close>

definition file_violations :: "config \<Rightarrow> (path \<Rightarrow> source) \<Rightarrow> path \<Rightarrow> ImportViolation list" where
  "file_violations cfg read_source fp =
     (case violations_for_file (cfg_root_dir cfg) fp (cfg_package_name cfg) (cfg_layer_names cfg)
             (cfg_forbid cfg) read_source of
        Inl e \<Rightarrow> []
      | Inr vs \<Rightarrow> vs)"

text \<open>
  A file with the statement \<open>import pkg.dataset.x, pkg.adaptor.y\<close> on its first line, and
  the configuration of package \<open>pkg\<close> with the default policy.
\<close>

definition two_names_source :: "path \<Rightarrow> source" where
  "two_names_source p =
     Module (Other [Import [Alias ''pkg.dataset.x'' None, Alias ''pkg.adaptor.y'' None] 1 0])"

definition pkg_default_config :: config where
  "pkg_default_config =
     \<lparr>cfg_root_dir = [''pkg''], cfg_package_name = ''pkg'',
      cfg_layer_names = {''domain'', ''dataset'', ''adaptor'', ''service''},
      cfg_forbid = default_forbid\<rparr>"


section \<open>Properties\<close>

subsection \<open>Strings\<close>

lemma split_max1_hd: "hd (split_max1 c s) = takeWhile (\<lambda>x. x \<noteq> c) s"
proof (cases "dropWhile (\<lambda>x. x \<noteq> c) s")
  case Nil
  then have "\<forall>x\<in>set s. x \<noteq> c"
    by (simp add: dropWhile_eq_Nil_conv)
  then have tw: "takeWhile (\<lambda>x. x \<noteq> c) s = s"
    by (simp add: takeWhile_eq_all_conv)
  have "split_max1 c s = [s]"
    unfolding split_max1_def Nil by simp
  with tw show ?thesis
    by (metis list.sel(1))
next
  case (Cons a rest)
  then show ?thesis
    by (simp add: split_max1_def)
qed

lemma startswith_iff: "startswith s p \<longleftrightarrow> (\<exists>r. s = p @ r)"
  unfolding startswith_def
  by (metis append_eq_conv_conj)

lemma removeprefix_append: "removeprefix (p @ r) p = r"
  by (simp add: removeprefix_def startswith_def)

subsection \<open>Import classification\<close>

text \<open>
  Claim C2. The import-layer classifier, for every package name \<open>p\<close> and declared layer set
  \<open>L\<close>, with the cases read in the order in which they are listed (the empty path is decided
  first): the empty module path is \<open>other\<close>; a path equal to \<open>p\<close> is \<open>root\<close>; a path
  \<open>p.r\<close> is the first dotted segment of \<open>r\<close> when that segment is declared and \<open>root\<close>
  otherwise; every path neither equal to \<open>p\<close> nor starting with \<open>p.\<close> is \<open>other\<close>.
\<close>

theorem imported_layer_cases:
  "imported_layer [] p L = ''other''
   \<and> (m \<noteq> [] \<and> m = p \<longrightarrow> imported_layer m p L = ''root'')
   \<and> (m = p @ ''.'' @ r \<longrightarrow>
        imported_layer m p L =
          (if takeWhile (\<lambda>x. x \<noteq> CHR ''.'') r \<in> L then takeWhile (\<lambda>x. x \<noteq> CHR ''.'') r
           else ''root''))
   \<and> (m \<noteq> p \<and> \<not> prefix (p @ ''.'') m \<longrightarrow> imported_layer m p L = ''other'')"
proof (intro conjI impI)
  show "imported_layer [] p L = ''other''"
    by (simp add: imported_layer_def)
next
  assume "m \<noteq> [] \<and> m = p"
  then have "m \<noteq> []" and "m = p"
    by blast+
  then show "imported_layer m p L = ''root''"
    by (simp add: imported_layer_def)
next
  assume m: "m = p @ ''.'' @ r"
  then have ne: "m \<noteq> []" and np: "m \<noteq> p"
    by auto
  have sw: "startswith m (p @ ''.'')"
    using m by (auto simp: startswith_iff)
  have rp: "removeprefix m (p @ ''.'') = r"
    using removeprefix_append [of "p @ ''.''" r] m by simp
  show "imported_layer m p L =
          (if takeWhile (\<lambda>x. x \<noteq> CHR ''.'') r \<in> L then takeWhile (\<lambda>x. x \<noteq> CHR ''.'') r
           else ''root'')"
    using ne np sw rp by (simp add: imported_layer_def Let_def split_max1_hd)
next
  assume a: "m \<noteq> p \<and> \<not> prefix (p @ ''.'') m"
  then have "\<not> startswith m (p @ ''.'')"
    by (auto simp: startswith_iff prefix_def)
  with a show "imported_layer m p L = ''other''"
    by (simp add: imported_layer_def Let_def)
qed

theorem imported_layer_cases_witness:
  "imported_layer [] ''pkg'' {''domain'', ''adaptor''} = ''other''
   \<and> imported_layer ''pkg'' ''pkg'' {''domain'', ''adaptor''} = ''root''
   \<and> imported_layer ''pkg.adaptor.db'' ''pkg'' {''domain'', ''adaptor''} = ''adaptor''
   \<and> imported_layer ''pkg.util.x'' ''pkg'' {''domain'', ''adaptor''} = ''root''
   \<and> imported_layer ''os.path'' ''pkg'' {''domain'', ''adaptor''} = ''other''"
  using imported_layer_cases [of "''pkg''" "{''domain'', ''adaptor''}" "''pkg''" "''''"]
    imported_layer_cases [of "''pkg''" "{''domain'', ''adaptor''}" "''pkg.adaptor.db''" "''adaptor.db''"]
    imported_layer_cases [of "''pkg''" "{''domain'', ''adaptor''}" "''pkg.util.x''" "''util.x''"]
    imported_layer_cases [of "''pkg''" "{''domain'', ''adaptor''}" "''os.path''" "''''"]
  by simp

subsection \<open>The import walk\<close>

lemma nodes_children: "nodes n = n # concat (map nodes (iter_child_nodes n))"
  by (cases n) (simp_all add: comp_def)

lemma mset_nodes: "mset (nodes n) = add_mset n (mset (concat (map nodes (iter_child_nodes n))))"
  by (metis mset.simps(2) nodes_children)

lemma mset_concat_map: "mset (concat (map f xs)) = (\<Sum>x\<in>#mset xs. mset (f x))"
  by (induction xs) simp_all

lemma mset_walk_queue: "mset (walk_queue q) = mset (concat (map nodes q))"
proof (induction q rule: walk_queue.induct)
  case 1
  show ?case by simp
next
  case (2 n todo)
  have "mset (walk_queue (n # todo)) = add_mset n (mset (walk_queue (todo @ iter_child_nodes n)))"
    by simp
  also have "\<dots> = add_mset n (mset (concat (map nodes (todo @ iter_child_nodes n))))"
    using "2.IH" by simp
  also have "\<dots> = mset (nodes n) + mset (concat (map nodes todo))"
    by (simp add: mset_nodes)
  finally show ?case by simp
qed

lemma iter_imports_from_concat: "iter_imports_from ns = concat (map stmt_refs ns)"
  by (induction ns rule: iter_imports_from.induct) (simp_all split: option.splits)

text \<open>
  Claim C9. For a parsed file the references that \<open>_iter_imports\<close> yields are, counted
  with multiplicity, exactly those of the statements of the tree: every \<open>import\<close>
  statement gives one reference (name, line, column) for each of its names, a
  \<open>from X import Y\<close> statement gives the single reference keyed on \<open>X\<close>, and a
  from-import without a module gives none.
\<close>

theorem iter_imports_complete:
  "mset (iter_imports tree) = (\<Sum>n\<in>#mset (nodes tree). mset (stmt_refs n))
   \<and> stmt_refs (Import names line col) = map (\<lambda>a. (alias_name a, line, col)) names
   \<and> length (stmt_refs (Import names line col)) = length names
   \<and> stmt_refs (ImportFrom (Some x) names level line col) = [(x, line, col)]
   \<and> stmt_refs (ImportFrom None names level line col) = []"
proof -
  have "mset (iter_imports tree) = (\<Sum>n\<in>#mset (walk_queue [tree]). mset (stmt_refs n))"
    by (simp add: iter_imports_def walk_def iter_imports_from_concat mset_concat_map)
  also have "mset (walk_queue [tree]) = mset (nodes tree)"
    by (simp add: mset_walk_queue mset_nodes)
  finally show ?thesis by simp
qed

theorem iter_imports_complete_witness:
  "iter_imports
     (Other [Import [Alias ''os'' None, Alias ''sys'' (Some ''system'')] 1 0,
             Other [ImportFrom (Some ''pkg.domain'') [Alias ''model'' None] 0 3 4],
             ImportFrom None [Alias ''sibling'' None] 1 5 0])
     = [(''os'', 1, 0), (''sys'', 1, 0), (''pkg.domain'', 3, 4)]
   \<and> mset [(''os'', 1, 0), (''sys'', 1, 0), (''pkg.domain'', 3, 4)] =
       (\<Sum>n\<in>#mset (nodes
          (Other [Import [Alias ''os'' None, Alias ''sys'' (Some ''system'')] 1 0,
                  Other [ImportFrom (Some ''pkg.domain'') [Alias ''model'' None] 0 3 4],
                  ImportFrom None [Alias ''sibling'' None] 1 5 0])). mset (stmt_refs n))"
proof -
  have run: "iter_imports
     (Other [Import [Alias ''os'' None, Alias ''sys'' (Some ''system'')] 1 0,
             Other [ImportFrom (Some ''pkg.domain'') [Alias ''model'' None] 0 3 4],
             ImportFrom None [Alias ''sibling'' None] 1 5 0])
     = [(''os'', 1, 0), (''sys'', 1, 0), (''pkg.domain'', 3, 4)]"
    by (simp add: iter_imports_def walk_def)
  show ?thesis
    using iter_imports_complete [of
        "Other [Import [Alias ''os'' None, Alias ''sys'' (Some ''system'')] 1 0,
                Other [ImportFrom (Some ''pkg.domain'') [Alias ''model'' None] 0 3 4],
                ImportFrom None [Alias ''sibling'' None] 1 5 0]"]
    unfolding run by simp
qed

subsection \<open>Rule evaluation\<close>

lemma check_imports_filter:
  "layer \<notin> {''root'', ''other''} \<Longrightarrow>
   check_imports fp layer pkg L forbid refs acc =
     acc @ map (rule_violation fp layer pkg L)
            (filter (\<lambda>r. forbidden_edge forbid layer (imported_layer (fst r) pkg L)) refs)"
proof (induction refs arbitrary: acc)
  case Nil
  show ?case by simp
next
  case (Cons r refs)
  obtain m l c where r: "r = (m, l, c)"
    by (cases r) auto
  show ?case
    using Cons.prems
    by (simp add: r Cons.IH Let_def forbidden_edge_def rule_violation_def split: option.splits)
qed

lemma violations_for_file_parsed:
  assumes "file_layer root_dir fp L = Inr A"
    and "read_source fp = Module tree"
  shows "violations_for_file root_dir fp pkg L forbid read_source =
           Inr (map (rule_violation fp A pkg L)
                  (filter (\<lambda>r. forbidden_edge forbid A (imported_layer (fst r) pkg L))
                     (iter_imports tree)))"
proof (cases "A \<in> {''root'', ''other''}")
  case True
  then have "\<not> forbidden_edge forbid A b" for b
    by (simp add: forbidden_edge_def)
  with True assms show ?thesis
    by (simp add: violations_for_file_def)
next
  case False
  with assms show ?thesis
    by (simp add: violations_for_file_def check_imports_filter)
qed

text \<open>
  Claim C1. For a scanned file whose content parses: when its layer \<open>A\<close> is \<open>root\<close> or
  \<open>other\<close> nothing is produced; otherwise the violations are, in the order of the import
  references, one violation with the reason "Forbidden import direction by configured layer
  rules." for exactly those references whose import layer \<open>B\<close> is neither \<open>root\<close> nor
  \<open>other\<close> and is contained in the forbidden mapping's entry for \<open>A\<close>; without an entry for
  \<open>A\<close> there is none.
\<close>

theorem violations_for_file_rule:
  assumes "file_layer root_dir fp L = Inr A"
    and "read_source fp = Module tree"
  shows "violations_for_file root_dir fp pkg L forbid read_source =
           Inr (map (rule_violation fp A pkg L)
                  (filter (\<lambda>r. forbidden_edge forbid A (imported_layer (fst r) pkg L))
                     (iter_imports tree)))
         \<and> (\<forall>r\<in>set (iter_imports tree).
              reason (rule_violation fp A pkg L r) =
                ''Forbidden import direction by configured layer rules.'')
         \<and> (\<forall>B. forbidden_edge forbid A B \<longleftrightarrow>
              A \<notin> {''root'', ''other''} \<and> B \<notin> {''root'', ''other''} \<and>
              (\<exists>targets. forbid A = Some targets \<and> B \<in> targets))"
proof (intro conjI)
  show "violations_for_file root_dir fp pkg L forbid read_source =
           Inr (map (rule_violation fp A pkg L)
                  (filter (\<lambda>r. forbidden_edge forbid A (imported_layer (fst r) pkg L))
                     (iter_imports tree)))"
    using assms by (rule violations_for_file_parsed)
next
  show "\<forall>r\<in>set (iter_imports tree).
          reason (rule_violation fp A pkg L r) =
            ''Forbidden import direction by configured layer rules.''"
    by (simp add: rule_violation_def split: prod.splits)
next
  show "\<forall>B. forbidden_edge forbid A B \<longleftrightarrow>
          A \<notin> {''root'', ''other''} \<and> B \<notin> {''root'', ''other''} \<and>
          (\<exists>targets. forbid A = Some targets \<and> B \<in> targets)"
    by (auto simp: forbidden_edge_def split: option.splits)
qed

theorem violations_for_file_rule_witness:
  "file_layer [''src'', ''pkg''] [''src'', ''pkg'', ''domain'', ''a.py'']
     {''domain'', ''adaptor'', ''dataset''} = Inr ''domain''
   \<and> violations_for_file [''src'', ''pkg''] [''src'', ''pkg'', ''domain'', ''a.py''] ''pkg''
       {''domain'', ''adaptor'', ''dataset''} [''domain'' \<mapsto> {''adaptor'', ''dataset''}]
       (\<lambda>p. Module (Other
          [Import [Alias ''pkg.adaptor.db'' None, Alias ''os'' None] 1 0,
           Other [ImportFrom (Some ''pkg.dataset'') [Alias ''y'' None] 0 3 4],
           ImportFrom None [Alias ''z'' None] 1 5 0,
           ImportFrom (Some ''pkg.domain.model'') [Alias ''M'' None] 0 2 0]))
     = Inr [\<lparr>file_path = [''src'', ''pkg'', ''domain'', ''a.py''], file_layer_name = ''domain'',
             imported_module = ''pkg.adaptor.db'', imported_layer_name = ''adaptor'',
             lineno = 1, col_offset = 0,
             reason = ''Forbidden import direction by configured layer rules.''\<rparr>,
            \<lparr>file_path = [''src'', ''pkg'', ''domain'', ''a.py''], file_layer_name = ''domain'',
             imported_module = ''pkg.dataset'', imported_layer_name = ''dataset'',
             lineno = 3, col_offset = 4,
             reason = ''Forbidden import direction by configured layer rules.''\<rparr>]"
proof -
  have layer: "file_layer [''src'', ''pkg''] [''src'', ''pkg'', ''domain'', ''a.py'']
     {''domain'', ''adaptor'', ''dataset''} = Inr ''domain''"
    by (simp add: file_layer_def relative_to_def)
  show ?thesis
    using layer violations_for_file_rule [OF layer, of
        "\<lambda>p. Module (Other
          [Import [Alias ''pkg.adaptor.db'' None, Alias ''os'' None] 1 0,
           Other [ImportFrom (Some ''pkg.dataset'') [Alias ''y'' None] 0 3 4],
           ImportFrom None [Alias ''z'' None] 1 5 0,
           ImportFrom (Some ''pkg.domain.model'') [Alias ''M'' None] 0 2 0])"
        _ "''pkg''" "[''domain'' \<mapsto> {''adaptor'', ''dataset''}]"]
    by (simp add: iter_imports_def walk_def forbidden_edge_def rule_violation_def
        imported_layer_def startswith_def removeprefix_def split_max1_def)
qed

subsection \<open>The scan loop\<close>

lemma violations_for_file_path:
  assumes "violations_for_file root_dir fp pkg L forbid read_source = Inr vs"
    and "v \<in> set vs"
  shows "file_path v = fp"
proof (cases "file_layer root_dir fp L")
  case (Inl e)
  with assms show ?thesis
    by (simp add: violations_for_file_def)
next
  case (Inr A)
  show ?thesis
  proof (cases "read_source fp")
    case Unreadable
    with assms Inr show ?thesis
      by (simp add: violations_for_file_def split: if_splits)
  next
    case (ParseValueError err)
    with assms Inr show ?thesis
      by (simp add: violations_for_file_def split: if_splits)
  next
    case (SyntaxErr l c msg)
    with assms Inr show ?thesis
      by (auto simp: violations_for_file_def split: if_splits)
  next
    case (Module tree)
    with assms Inr show ?thesis
      by (auto simp: violations_for_file_parsed rule_violation_def split: prod.splits)
  qed
qed

lemma file_violations_path:
  assumes "v \<in> set (file_violations cfg read_source fp)"
  shows "file_path v = fp"
proof (cases "violations_for_file (cfg_root_dir cfg) fp (cfg_package_name cfg)
                (cfg_layer_names cfg) (cfg_forbid cfg) read_source")
  case (Inl e)
  with assms show ?thesis
    by (simp add: file_violations_def)
next
  case (Inr vs)
  with assms have "v \<in> set vs"
    by (simp add: file_violations_def)
  with Inr show ?thesis
    by (rule violations_for_file_path)
qed

lemma scan_files_Inr_iff:
  "scan_files cfg read_source fps acc = Inr all_violations \<longleftrightarrow>
     (\<forall>fp\<in>set fps. \<exists>vs. violations_for_file (cfg_root_dir cfg) fp (cfg_package_name cfg)
                         (cfg_layer_names cfg) (cfg_forbid cfg) read_source = Inr vs)
     \<and> all_violations = acc @ concat (map (file_violations cfg read_source) fps)"
proof (induction fps arbitrary: acc)
  case Nil
  show ?case by auto
next
  case (Cons fp fps)
  show ?case
  proof (cases "violations_for_file (cfg_root_dir cfg) fp (cfg_package_name cfg)
                  (cfg_layer_names cfg) (cfg_forbid cfg) read_source")
    case (Inl e)
    then show ?thesis by simp
  next
    case (Inr vs)
    then have "file_violations cfg read_source fp = vs"
      by (simp add: file_violations_def)
    with Inr show ?thesis
      by (simp add: Cons.IH)
  qed
qed



subsection \<open>Files outside the declared layers\<close>

text \<open>
  Claim C7. A discovered file that lies in a directory under the root whose top-level
  component is not a declared layer name has the file layer \<open>other\<close> and produces no
  violation, whatever reading or parsing it would give: it is not read at all, and no
  violation collected by a scan belongs to it.
\<close>

theorem undeclared_directory_no_violation:
  assumes "relative_to fp (cfg_root_dir cfg) = Inr (top_dir # rest)"
    and "rest \<noteq> []"
    and "top_dir \<notin> cfg_layer_names cfg"
  shows "file_layer (cfg_root_dir cfg) fp (cfg_layer_names cfg) = Inr ''other''
         \<and> violations_for_file (cfg_root_dir cfg) fp (cfg_package_name cfg) (cfg_layer_names cfg)
             (cfg_forbid cfg) read_source = Inr []
         \<and> (\<forall>files all_violations.
               scan_files cfg read_source files [] = Inr all_violations \<longrightarrow>
               (\<forall>v\<in>set all_violations. file_path v \<noteq> fp))"
proof -
  from assms(2) have "length (top_dir # rest) \<noteq> 1"
    by simp
  with assms(1,3) have layer: "file_layer (cfg_root_dir cfg) fp (cfg_layer_names cfg) = Inr ''other''"
    by (simp add: file_layer_def)
  then have none: "violations_for_file (cfg_root_dir cfg) fp (cfg_package_name cfg)
      (cfg_layer_names cfg) (cfg_forbid cfg) read_source = Inr []"
    by (simp add: violations_for_file_def)
  then have empty: "file_violations cfg read_source fp = []"
    by (simp add: file_violations_def)
  have "\<forall>v\<in>set all_violations. file_path v \<noteq> fp"
    if "scan_files cfg read_source files [] = Inr all_violations" for files all_violations
  proof
    fix v
    assume "v \<in> set all_violations"
    with that obtain f where "f \<in> set files" and v: "v \<in> set (file_violations cfg read_source f)"
      by (auto simp: scan_files_Inr_iff)
    from v have "file_path v = f"
      by (rule file_violations_path)
    with v empty show "file_path v \<noteq> fp"
      by auto
  qed
  with layer none show ?thesis
    by blast
qed

theorem undeclared_directory_no_violation_witness:
  "relative_to [''pkg'', ''other_dir'', ''baz.py''] [''pkg''] = Inr [''other_dir'', ''baz.py'']
   \<and> file_layer [''pkg''] [''pkg'', ''other_dir'', ''baz.py''] {''domain''} = Inr ''other''
   \<and> violations_for_file [''pkg''] [''pkg'', ''other_dir'', ''baz.py''] ''pkg'' {''domain''}
        [''domain'' \<mapsto> {''domain''}] (\<lambda>p. SyntaxErr None None ''invalid syntax'') = Inr []
   \<and> scan_files
        \<lparr>cfg_root_dir = [''pkg''], cfg_package_name = ''pkg'', cfg_layer_names = {''domain''},
         cfg_forbid = [''domain'' \<mapsto> {''domain''}]\<rparr>
        (\<lambda>p. SyntaxErr None None ''invalid syntax'') [[''pkg'', ''other_dir'', ''baz.py'']] [] = Inr []"
proof -
  let ?cfg = "\<lparr>cfg_root_dir = [''pkg''], cfg_package_name = ''pkg'', cfg_layer_names = {''domain''},
         cfg_forbid = [''domain'' \<mapsto> {''domain''}]\<rparr>"
  have rel: "relative_to [''pkg'', ''other_dir'', ''baz.py''] (cfg_root_dir ?cfg) =
      Inr [''other_dir'', ''baz.py'']"
    by (simp add: relative_to_def)
  have ne: "[''baz.py''] \<noteq> []"
    by simp
  have nd: "''other_dir'' \<notin> cfg_layer_names ?cfg"
    by simp
  show ?thesis
    using rel undeclared_directory_no_violation [OF rel ne nd,
        of "\<lambda>p. SyntaxErr None None ''invalid syntax''"]
    by simp
qed

subsection \<open>Files that do not parse\<close>




subsection \<open>Importing from the package itself\<close>

lemma imported_layer_package: "imported_layer pkg pkg L \<in> {''root'', ''other''}"
  by (simp add: imported_layer_def)

text \<open>
  Claim C10. For a statement \<open>from <package> import <name>\<close> the recorded module path is
  the package name itself, whatever the imported names are; it classifies as \<open>root\<close>, and
  no violation of a parsed file has the package name as its imported module, so a forbidden
  layer imported this way is not reported.
\<close>

theorem from_package_import_never_reported:
  assumes "pkg \<noteq> []"
    and "read_source fp = Module tree"
  shows "iter_imports_from (ImportFrom (Some pkg) names level line col # rest) =
           (pkg, line, col) # iter_imports_from rest
         \<and> imported_layer pkg pkg L = ''root''
         \<and> (\<forall>vs. violations_for_file root_dir fp pkg L forbid read_source = Inr vs \<longrightarrow>
               (\<forall>v\<in>set vs. imported_module v \<noteq> pkg))"
proof (intro conjI allI impI)
  show "iter_imports_from (ImportFrom (Some pkg) names level line col # rest) =
           (pkg, line, col) # iter_imports_from rest"
    by simp
next
  from assms(1) show "imported_layer pkg pkg L = ''root''"
    by (simp add: imported_layer_def)
next
  fix vs
  assume vs: "violations_for_file root_dir fp pkg L forbid read_source = Inr vs"
  show "\<forall>v\<in>set vs. imported_module v \<noteq> pkg"
  proof (cases "file_layer root_dir fp L")
    case (Inl e)
    with vs show ?thesis
      by (simp add: violations_for_file_def)
  next
    case (Inr A)
    have "vs = map (rule_violation fp A pkg L)
                 (filter (\<lambda>r. forbidden_edge forbid A (imported_layer (fst r) pkg L))
                    (iter_imports tree))"
      using violations_for_file_parsed [where read_source = read_source and fp = fp
          and pkg = pkg and forbid = forbid, OF Inr assms(2)] vs
      by simp
    moreover have "imported_module (rule_violation fp A pkg L r) = fst r" for r
      by (simp add: rule_violation_def split: prod.splits)
    moreover have "\<not> forbidden_edge forbid A (imported_layer pkg pkg L)"
      using imported_layer_package [of pkg L] by (auto simp: forbidden_edge_def)
    ultimately show ?thesis
      by auto
  qed
qed

theorem from_package_import_never_reported_witness:
  "''pkg'' \<noteq> []
   \<and> iter_imports (Other [ImportFrom (Some ''pkg'') [Alias ''adaptor'' None] 0 1 0]) = [(''pkg'', 1, 0)]
   \<and> imported_layer ''pkg'' ''pkg'' {''domain'', ''adaptor''} = ''root''
   \<and> violations_for_file [''pkg''] [''pkg'', ''domain'', ''a.py''] ''pkg'' {''domain'', ''adaptor''}
        [''domain'' \<mapsto> {''adaptor''}]
        (\<lambda>p. Module (Other [ImportFrom (Some ''pkg'') [Alias ''adaptor'' None] 0 1 0])) = Inr []"
proof -
  have ne: "''pkg'' \<noteq> []"
    by simp
  have content: "(\<lambda>p. Module (Other [ImportFrom (Some ''pkg'') [Alias ''adaptor'' None] 0 1 0]))
      [''pkg'', ''domain'', ''a.py''] = Module (Other [ImportFrom (Some ''pkg'') [Alias ''adaptor'' None] 0 1 0])"
    by simp
  show ?thesis
    using ne from_package_import_never_reported [where pkg = "''pkg''"
        and read_source = "\<lambda>p. Module (Other [ImportFrom (Some ''pkg'') [Alias ''adaptor'' None] 0 1 0])"
        and fp = "[''pkg'', ''domain'', ''a.py'']" and names = "[Alias ''adaptor'' None]"
        and level = 0 and line = 1 and col = 0 and rest = "[]"
        and L = "{''domain'', ''adaptor''}" and root_dir = "[''pkg'']"
        and forbid = "[''domain'' \<mapsto> {''adaptor''}]", OF ne content]
    by (simp add: violations_for_file_def file_layer_def relative_to_def
        iter_imports_def walk_def imported_layer_def)
qed

subsection \<open>Parsing the forbid entries\<close>

lemma split_max1_present:
  assumes "c \<in> set s"
  shows "split_max1 c s = [takeWhile (\<lambda>x. x \<noteq> c) s, tl (dropWhile (\<lambda>x. x \<noteq> c) s)]"
proof (cases "dropWhile (\<lambda>x. x \<noteq> c) s")
  case Nil
  with assms show ?thesis
    by (auto simp: dropWhile_eq_Nil_conv)
next
  case (Cons a rest)
  then show ?thesis
    by (simp add: split_max1_def)
qed

lemma parse_forbid_loop_step:
  "parse_forbid_loop (entry # entries) forbid =
     (if malformed_entry entry then Inl (ValueError (entry_error entry))
      else parse_forbid_loop entries
             (forbid(entry_source entry \<mapsto>
                (case forbid (entry_source entry) of None \<Rightarrow> {} | Some targets \<Rightarrow> targets)
                \<union> entry_destinations entry)))"
proof (cases "CHR '':'' \<in> set entry")
  case True
  then show ?thesis
    by (simp add: split_max1_present malformed_entry_def entry_error_def entry_source_def
        entry_destinations_def Let_def)
next
  case False
  then show ?thesis
    by (simp add: malformed_entry_def entry_error_def)
qed



lemma configure_Inr:
  assumes "configure a fs = Inr cfg"
  shows "\<exists>forbid. parse_forbid_entries (args_forbid a) = Inr forbid
           \<and> cfg_forbid cfg = (if forbid = Map.empty then default_forbid else forbid)
           \<and> cfg_root_dir cfg = args_root a
           \<and> cfg_layer_names cfg = set (parse_csv (args_layers a))"
proof (cases "parse_forbid_entries (args_forbid a)")
  case (Inl e)
  with assms show ?thesis
    by (simp add: configure_def Let_def split: if_splits)
next
  case (Inr forbid)
  with assms have "cfg =
      \<lparr>cfg_root_dir = args_root a,
       cfg_package_name = (if strip (args_package_name a) \<noteq> [] then strip (args_package_name a)
                           else path_name (args_root a)),
       cfg_layer_names = set (parse_csv (args_layers a)),
       cfg_forbid = (if forbid = Map.empty then default_forbid else forbid)\<rparr>"
    by (simp add: configure_def Let_def split: if_splits)
  with Inr show ?thesis
    by simp
qed



subsection \<open>Shape of the forbidden mapping\<close>

lemma dropWhile_strip: "dropWhile is_space (strip s) = strip s"
proof (cases "strip s")
  case Nil
  then show ?thesis by simp
next
  case (Cons x xs)
  let ?u = "dropWhile is_space s"
  have u: "?u = strip s @ rev (takeWhile is_space (rev ?u))"
    unfolding strip_def by (metis rev_append rev_rev_ident takeWhile_dropWhile_id)
  with Cons have "?u \<noteq> []" and "hd ?u = x"
    by (metis Nil_is_append_conv list.distinct(1), metis hd_append2 list.distinct(1) list.sel(1))
  then have "\<not> is_space x"
    using hd_dropWhile [of is_space s] by auto
  with Cons show ?thesis
    by simp
qed

lemma strip_idem: "strip (strip s) = strip s"
proof -
  have "strip (strip s) = rev (dropWhile is_space (rev (strip s)))"
    unfolding strip_def [of "strip s"] by (simp only: dropWhile_strip)
  also have "rev (strip s) = dropWhile is_space (rev (dropWhile is_space s))"
    by (simp add: strip_def)
  also have "rev (dropWhile is_space (dropWhile is_space (rev (dropWhile is_space s)))) = strip s"
    by (simp add: strip_def dropWhile_idem)
  finally show ?thesis .
qed

lemma parse_csv_stripped: "x \<in> set (parse_csv v) \<Longrightarrow> stripped_name x"
  by (auto simp: parse_csv_def stripped_name_def strip_idem)

lemma entry_shape:
  assumes "\<not> malformed_entry entry"
  shows "stripped_name (entry_source entry)"
    and "entry_destinations entry \<noteq> {}"
    and "\<forall>d\<in>entry_destinations entry. stripped_name d"
  using assms
  by (auto simp: malformed_entry_def entry_source_def entry_destinations_def stripped_name_def
      strip_idem parse_csv_stripped [unfolded stripped_name_def])

lemma well_shaped_update:
  assumes "well_shaped forbid"
    and "\<not> malformed_entry entry"
  shows "well_shaped (forbid(entry_source entry \<mapsto>
            (case forbid (entry_source entry) of None \<Rightarrow> {} | Some targets \<Rightarrow> targets)
            \<union> entry_destinations entry))"
  unfolding well_shaped_def
proof (intro allI impI)
  fix k targets
  assume look: "(forbid(entry_source entry \<mapsto>
            (case forbid (entry_source entry) of None \<Rightarrow> {} | Some targets \<Rightarrow> targets)
            \<union> entry_destinations entry)) k = Some targets"
  show "stripped_name k \<and> targets \<noteq> {} \<and> (\<forall>d\<in>targets. stripped_name d)"
  proof (cases "k = entry_source entry")
    case False
    with look have "forbid k = Some targets"
      by simp
    with assms(1) show ?thesis
      by (simp add: well_shaped_def)
  next
    case True
    with look have targets: "targets =
        (case forbid (entry_source entry) of None \<Rightarrow> {} | Some old \<Rightarrow> old)
        \<union> entry_destinations entry"
      by simp
    have old: "\<forall>d\<in>(case forbid (entry_source entry) of None \<Rightarrow> {} | Some old \<Rightarrow> old).
        stripped_name d"
      using assms(1) by (auto simp: well_shaped_def split: option.splits)
    from True targets old entry_shape [OF assms(2)] show ?thesis
      by auto
  qed
qed

lemma parse_forbid_loop_shape:
  "well_shaped forbid \<Longrightarrow> parse_forbid_loop entries forbid = Inr result \<Longrightarrow> well_shaped result"
proof (induction entries arbitrary: forbid)
  case Nil
  then show ?case by simp
next
  case (Cons entry entries)
  from Cons.prems(2) have ok: "\<not> malformed_entry entry"
    by (auto simp: parse_forbid_loop_step simp del: parse_forbid_loop.simps split: if_splits)
  let ?next = "forbid(entry_source entry \<mapsto>
                (case forbid (entry_source entry) of None \<Rightarrow> {} | Some targets \<Rightarrow> targets)
                \<union> entry_destinations entry)"
  from Cons.prems(2) ok have "parse_forbid_loop entries ?next = Inr result"
    by (simp add: parse_forbid_loop_step del: parse_forbid_loop.simps)
  moreover have "well_shaped ?next"
    using Cons.prems(1) ok by (rule well_shaped_update)
  ultimately show ?case
    using Cons.IH by blast
qed

lemma well_shaped_default: "well_shaped default_forbid"
  by (auto simp: well_shaped_def default_forbid_def stripped_name_def strip_def is_space_def
      split: if_splits)

lemma file_layer_range: "file_layer root_dir fp L = Inr A \<Longrightarrow> A \<in> L \<union> {''root'', ''other''}"
  by (auto simp: file_layer_def split: sum.splits if_splits list.splits)

lemma imported_layer_range: "imported_layer m pkg L \<in> L \<union> {''root'', ''other''}"
  by (simp add: imported_layer_def Let_def)


text \<open>
  Claim C5, as the code has it. The forbidden mapping is validated for its shape only: every
  key and every destination of the configuration's mapping is a non-empty name without outer
  whitespace, and every key has at least one destination; membership in the declared layer
  names is not checked. In the scan only declared names take effect: every violation has a
  declared file layer, and a violation raised by a rule has a declared import layer that the
  mapping's entry for the file layer contains.
\<close>

theorem forbid_mapping_shape_only:
  assumes "configure a fs = Inr cfg"
  shows "well_shaped (cfg_forbid cfg)
         \<and> (\<forall>fp vs. violations_for_file (cfg_root_dir cfg) fp (cfg_package_name cfg)
                        (cfg_layer_names cfg) (cfg_forbid cfg) read_source = Inr vs \<longrightarrow>
               (\<forall>v\<in>set vs.
                  file_layer_name v \<in> cfg_layer_names cfg \<and>
                  (reason v = ''Forbidden import direction by configured layer rules.'' \<longrightarrow>
                     imported_layer_name v \<in> cfg_layer_names cfg \<and>
                     (\<exists>targets. cfg_forbid cfg (file_layer_name v) = Some targets \<and>
                                imported_layer_name v \<in> targets))))"
proof (intro conjI allI impI ballI)
  from assms obtain forbid where
    parsed: "parse_forbid_entries (args_forbid a) = Inr forbid" and
    used: "cfg_forbid cfg = (if forbid = Map.empty then default_forbid else forbid)"
    using configure_Inr by blast
  have "well_shaped Map.empty"
    by (simp add: well_shaped_def)
  with parsed have "well_shaped forbid"
    unfolding parse_forbid_entries_def by (rule parse_forbid_loop_shape [rotated])
  with used show "well_shaped (cfg_forbid cfg)"
    by (simp add: well_shaped_default)
next
  fix fp vs v
  let ?L = "cfg_layer_names cfg" and ?pkg = "cfg_package_name cfg" and ?F = "cfg_forbid cfg"
  assume vs: "violations_for_file (cfg_root_dir cfg) fp ?pkg ?L ?F read_source = Inr vs"
    and v: "v \<in> set vs"
  from vs v obtain A where A: "file_layer (cfg_root_dir cfg) fp ?L = Inr A"
    and checkable: "A \<notin> {''root'', ''other''}"
    by (auto simp: violations_for_file_def split: sum.splits if_splits)
  from A checkable have declared: "A \<in> ?L"
    using file_layer_range by fastforce
  show "file_layer_name v \<in> ?L"
  proof (cases "read_source fp")
    case Unreadable
    with vs A checkable show ?thesis
      by (simp add: violations_for_file_def)
  next
    case (ParseValueError err)
    with vs A checkable show ?thesis
      by (simp add: violations_for_file_def)
  next
    case (SyntaxErr l c msg)
    with vs v A checkable declared show ?thesis
      by (auto simp: violations_for_file_def)
  next
    case (Module tree)
    with vs v A declared show ?thesis
      by (auto simp: violations_for_file_parsed rule_violation_def split: prod.splits)
  qed
  assume rule: "reason v = ''Forbidden import direction by configured layer rules.''"
  have "imported_layer_name v \<in> ?L \<and>
      (\<exists>targets. ?F (file_layer_name v) = Some targets \<and> imported_layer_name v \<in> targets)"
  proof (cases "read_source fp")
    case Unreadable
    with vs A checkable show ?thesis
      by (simp add: violations_for_file_def)
  next
    case (ParseValueError err)
    with vs A checkable show ?thesis
      by (simp add: violations_for_file_def)
  next
    case (SyntaxErr l c msg)
    with vs v A checkable rule show ?thesis
      by (auto simp: violations_for_file_def)
  next
    case (Module tree)
    with vs v A obtain r where
      edge: "forbidden_edge ?F A (imported_layer (fst r) ?pkg ?L)" and
      vr: "v = rule_violation fp A ?pkg ?L r"
      by (auto simp: violations_for_file_parsed)
    from vr have names: "file_layer_name v = A"
        "imported_layer_name v = imported_layer (fst r) ?pkg ?L"
      by (simp_all add: rule_violation_def split: prod.splits)
    from edge have "imported_layer (fst r) ?pkg ?L \<notin> {''root'', ''other''}"
      and "\<exists>targets. ?F A = Some targets \<and> imported_layer (fst r) ?pkg ?L \<in> targets"
      by (auto simp: forbidden_edge_def split: option.splits)
    with names imported_layer_range [of "fst r" ?pkg ?L] show ?thesis
      by auto
  qed
  then show "imported_layer_name v \<in> ?L"
    and "\<exists>targets. ?F (file_layer_name v) = Some targets \<and> imported_layer_name v \<in> targets"
    by simp_all
qed

lemma undeclared_rule_configuration:
  "configure undeclared_rule_args empty_tree_fs =
     Inr \<lparr>cfg_root_dir = [''pkg''], cfg_package_name = ''pkg'', cfg_layer_names = {''a'', ''b''},
          cfg_forbid = [''x'' \<mapsto> {''y''}]\<rparr>"
proof -
  have layers: "parse_csv ''a,b'' = [''a'', ''b'']" and dests: "parse_csv ''y'' = [''y'']"
    by (simp_all add: parse_csv_def strip_def is_space_def)
  have src: "strip ''x'' = ''x''" and pkg: "strip '''' = ''''"
    by (simp_all add: strip_def is_space_def)
  have "parse_forbid_entries [''x:y''] = Inr [''x'' \<mapsto> {''y''}]"
    by (simp add: parse_forbid_entries_def split_max1_def src dests)
  then show ?thesis
    by (simp add: configure_def undeclared_rule_args_def empty_tree_fs_def layers pkg
        path_name_def is_anchor_def)
qed

theorem forbid_mapping_shape_only_witness:
  "configure
     \<lparr>args_root = [''pkg''], args_package_name = '''', args_layers = ''a,b'',
      args_forbid = [''x:y'', [CHR 0xA0, CHR ''a'', CHR '' '', CHR '':'', CHR '' '', CHR ''b'', CHR '' '']],
      args_include_tests = False\<rparr> empty_tree_fs =
     Inr \<lparr>cfg_root_dir = [''pkg''], cfg_package_name = ''pkg'', cfg_layer_names = {''a'', ''b''},
          cfg_forbid = [''x'' \<mapsto> {''y''}, ''a'' \<mapsto> {''b''}]\<rparr>
   \<and> well_shaped [''x'' \<mapsto> {''y''}, ''a'' \<mapsto> {''b''}]
   \<and> violations_for_file [''pkg''] [''pkg'', ''a'', ''m.py''] ''pkg'' {''a'', ''b''}
        [''x'' \<mapsto> {''y''}, ''a'' \<mapsto> {''b''}]
        (\<lambda>p. Module (Other [Import [Alias ''pkg.b.n'' None, Alias ''pkg.y.m'' None] 1 0])) =
       Inr [\<lparr>file_path = [''pkg'', ''a'', ''m.py''], file_layer_name = ''a'',
              imported_module = ''pkg.b.n'', imported_layer_name = ''b'',
              lineno = 1, col_offset = 0,
              reason = ''Forbidden import direction by configured layer rules.''\<rparr>]
   \<and> ''a'' \<in> {''a'', ''b''} \<and> ''b'' \<in> {''a'', ''b''}
   \<and> violations_for_file [''pkg''] [''pkg'', ''x'', ''f.py''] ''pkg'' {''a'', ''b''}
        [''x'' \<mapsto> {''y''}, ''a'' \<mapsto> {''b''}]
        (\<lambda>p. Module (Other [Import [Alias ''pkg.b.n'' None, Alias ''pkg.y.m'' None] 1 0])) =
       Inr []"
proof -
  let ?a = "\<lparr>args_root = [''pkg''], args_package_name = '''', args_layers = ''a,b'',
      args_forbid = [''x:y'', [CHR 0xA0, CHR ''a'', CHR '' '', CHR '':'', CHR '' '', CHR ''b'', CHR '' '']],
      args_include_tests = False\<rparr>"
  let ?cfg = "\<lparr>cfg_root_dir = [''pkg''], cfg_package_name = ''pkg'', cfg_layer_names = {''a'', ''b''},
          cfg_forbid = [''x'' \<mapsto> {''y''}, ''a'' \<mapsto> {''b''}]\<rparr>"
  let ?src = "\<lambda>p::path. Module (Other [Import [Alias ''pkg.b.n'' None, Alias ''pkg.y.m'' None] 1 0])"
  let ?v = "\<lparr>file_path = [''pkg'', ''a'', ''m.py''], file_layer_name = ''a'',
              imported_module = ''pkg.b.n'', imported_layer_name = ''b'',
              lineno = 1, col_offset = 0,
              reason = ''Forbidden import direction by configured layer rules.''\<rparr>"
  have layers: "parse_csv ''a,b'' = [''a'', ''b'']" and dests: "parse_csv ''y'' = [''y'']"
    and dests': "parse_csv '' b '' = [''b'']"
    by (simp_all add: parse_csv_def strip_def is_space_def)
  have src: "strip ''x'' = ''x''" and pkg: "strip '''' = ''''"
    and src': "strip [CHR 0xA0, CHR ''a'', CHR '' ''] = ''a''"
    by (simp_all add: strip_def is_space_def)
  have "parse_forbid_entries (args_forbid ?a) = Inr [''x'' \<mapsto> {''y''}, ''a'' \<mapsto> {''b''}]"
    by (simp add: parse_forbid_entries_def split_max1_def src src' dests dests')
  then have conf: "configure ?a empty_tree_fs = Inr ?cfg"
    by (simp add: configure_def empty_tree_fs_def layers pkg path_name_def is_anchor_def)
  have run: "violations_for_file (cfg_root_dir ?cfg) [''pkg'', ''a'', ''m.py'']
      (cfg_package_name ?cfg) (cfg_layer_names ?cfg) (cfg_forbid ?cfg) ?src = Inr [?v]"
    by (simp add: violations_for_file_def file_layer_def relative_to_def iter_imports_def
        walk_def imported_layer_def startswith_def removeprefix_def split_max1_def)
  have skipped: "violations_for_file [''pkg''] [''pkg'', ''x'', ''f.py''] ''pkg'' {''a'', ''b''}
      [''x'' \<mapsto> {''y''}, ''a'' \<mapsto> {''b''}] ?src = Inr []"
    by (simp add: violations_for_file_def file_layer_def relative_to_def)
  have shape: "well_shaped (cfg_forbid ?cfg)"
    using forbid_mapping_shape_only [OF conf, of ?src] by blast
  have "\<forall>v\<in>set [?v]. file_layer_name v \<in> cfg_layer_names ?cfg \<and>
      (reason v = ''Forbidden import direction by configured layer rules.'' \<longrightarrow>
         imported_layer_name v \<in> cfg_layer_names ?cfg \<and>
         (\<exists>targets. cfg_forbid ?cfg (file_layer_name v) = Some targets \<and>
                    imported_layer_name v \<in> targets))"
    using run forbid_mapping_shape_only [OF conf, of ?src] by blast
  then have declared: "''a'' \<in> {''a'', ''b''} \<and> ''b'' \<in> {''a'', ''b''}"
    by simp
  from conf shape run skipped declared show ?thesis
    by simp
qed

theorem undeclared_rule_accepted:
  "configure undeclared_rule_args empty_tree_fs =
     Inr \<lparr>cfg_root_dir = [''pkg''], cfg_package_name = ''pkg'', cfg_layer_names = {''a'', ''b''},
          cfg_forbid = [''x'' \<mapsto> {''y''}]\<rparr>
   \<and> \<not> only_declared
         \<lparr>cfg_root_dir = [''pkg''], cfg_package_name = ''pkg'', cfg_layer_names = {''a'', ''b''},
          cfg_forbid = [''x'' \<mapsto> {''y''}]\<rparr>"
  using undeclared_rule_configuration
  by (simp add: only_declared_def)

subsection \<open>Configuration errors\<close>

lemma parse_forbid_loop_first_malformed:
  "find malformed_entry entries = Some entry \<Longrightarrow>
   parse_forbid_loop entries forbid = Inl (ValueError (entry_error entry))"
proof (induction entries arbitrary: forbid)
  case Nil
  then show ?case by simp
next
  case (Cons e entries)
  show ?case
  proof (cases "malformed_entry e")
    case True
    with Cons.prems have "entry = e"
      by simp
    with True show ?thesis
      by (simp add: parse_forbid_loop_step del: parse_forbid_loop.simps)
  next
    case False
    with Cons.prems have "find malformed_entry entries = Some entry"
      by simp
    then have "parse_forbid_loop entries
             (forbid(entry_source e \<mapsto>
                (case forbid (entry_source e) of None \<Rightarrow> {} | Some targets \<Rightarrow> targets)
                \<union> entry_destinations e)) = Inl (ValueError (entry_error entry))"
      by (rule Cons.IH)
    with False show ?thesis
      by (simp add: parse_forbid_loop_step del: parse_forbid_loop.simps)
  qed
qed

lemma find_malformed:
  assumes "\<exists>entry\<in>set entries. malformed_entry entry"
  shows "\<exists>entry. find malformed_entry entries = Some entry \<and> entry \<in> set entries
           \<and> malformed_entry entry"
proof (cases "find malformed_entry entries")
  case None
  with assms show ?thesis
    by (auto simp: find_None_iff)
next
  case (Some entry)
  then have "entry \<in> set entries \<and> malformed_entry entry"
    by (auto simp: find_Some_iff)
  with Some show ?thesis
    by simp
qed

lemma configure_ignores_files:
  "configure a (fs\<lparr>fs_rglob_py := files, fs_source := contents\<rparr>) = configure a fs"
  by (simp add: configure_def)

text \<open>
  Claim C6, as the code has it. On a fatal configuration error (the root does not exist or
  is not a directory, or a forbid entry is malformed) \<open>main\<close> is left by an exception
  that carries a descriptive message: \<open>SystemExit\<close> with the root path when the root is
  bad, otherwise \<open>ValueError\<close> with the first malformed entry. No file is scanned, the
  result being the same for any discovered files and contents. The process status is 1, the
  status of a run that found violations.
\<close>

theorem configuration_error_aborts:
  assumes "\<not> fs_exists fs (args_root a) \<or> \<not> fs_is_dir fs (args_root a)
           \<or> (\<exists>entry\<in>set (args_forbid a). malformed_entry entry)"
  shows "(\<not> fs_exists fs (args_root a) \<or> \<not> fs_is_dir fs (args_root a) \<longrightarrow>
            main a fs =
              Inl (SystemExit (''--root must be an existing directory: '' @ path_str (args_root a))))
         \<and> (fs_exists fs (args_root a) \<and> fs_is_dir fs (args_root a) \<longrightarrow>
              (\<exists>entry\<in>set (args_forbid a). malformed_entry entry \<and>
                 find malformed_entry (args_forbid a) = Some entry \<and>
                 main a fs = Inl (ValueError (entry_error entry))))
         \<and> exit_status (main a fs) = 1
         \<and> main a (fs\<lparr>fs_rglob_py := files, fs_source := contents\<rparr>) = main a fs"
proof -
  have bad_root: "configure a fs =
      Inl (SystemExit (''--root must be an existing directory: '' @ path_str (args_root a)))"
    if "\<not> fs_exists fs (args_root a) \<or> \<not> fs_is_dir fs (args_root a)"
    using that by (auto simp: configure_def)
  have bad_entry: "\<exists>entry\<in>set (args_forbid a). malformed_entry entry \<and>
      find malformed_entry (args_forbid a) = Some entry \<and>
      configure a fs = Inl (ValueError (entry_error entry))"
    if ok: "fs_exists fs (args_root a) \<and> fs_is_dir fs (args_root a)"
  proof -
    from ok assms have "\<exists>entry\<in>set (args_forbid a). malformed_entry entry"
      by blast
    then obtain entry where found: "find malformed_entry (args_forbid a) = Some entry"
      and entry: "entry \<in> set (args_forbid a)" "malformed_entry entry"
      using find_malformed by blast
    from found have "parse_forbid_entries (args_forbid a) = Inl (ValueError (entry_error entry))"
      unfolding parse_forbid_entries_def by (rule parse_forbid_loop_first_malformed)
    with ok have "configure a fs = Inl (ValueError (entry_error entry))"
      by (simp add: configure_def)
    with found entry show ?thesis
      by blast
  qed
  from bad_root bad_entry obtain e where e: "configure a fs = Inl e"
    by blast
  then have m: "main a fs = Inl e"
    by (simp add: main_def)
  from e have "configure a (fs\<lparr>fs_rglob_py := files, fs_source := contents\<rparr>) = Inl e"
    by (simp add: configure_ignores_files)
  then have there: "main a (fs\<lparr>fs_rglob_py := files, fs_source := contents\<rparr>) = main a fs"
    using m by (simp add: main_def)
  from m have status: "exit_status (main a fs) = 1"
    by (simp add: exit_status_def)
  have root_case: "\<not> fs_exists fs (args_root a) \<or> \<not> fs_is_dir fs (args_root a) \<longrightarrow>
      main a fs =
        Inl (SystemExit (''--root must be an existing directory: '' @ path_str (args_root a)))"
    using bad_root by (simp add: main_def)
  have entry_case: "fs_exists fs (args_root a) \<and> fs_is_dir fs (args_root a) \<longrightarrow>
      (\<exists>entry\<in>set (args_forbid a). malformed_entry entry \<and>
         find malformed_entry (args_forbid a) = Some entry \<and>
         main a fs = Inl (ValueError (entry_error entry)))"
  proof
    assume "fs_exists fs (args_root a) \<and> fs_is_dir fs (args_root a)"
    then obtain entry where "entry \<in> set (args_forbid a)" "malformed_entry entry"
      "find malformed_entry (args_forbid a) = Some entry"
      "configure a fs = Inl (ValueError (entry_error entry))"
      using bad_entry by blast
    then show "\<exists>entry\<in>set (args_forbid a). malformed_entry entry \<and>
         find malformed_entry (args_forbid a) = Some entry \<and>
         main a fs = Inl (ValueError (entry_error entry))"
      by (auto simp: main_def)
  qed
  from root_case entry_case status there show ?thesis
    by blast
qed

theorem configuration_error_aborts_witness:
  "malformed_entry [CHR 0xA0, CHR '':'', CHR ''b'']
   \<and> main \<lparr>args_root = [''pkg''], args_package_name = '''', args_layers = ''domain,adaptor'',
            args_forbid = [''domain:adaptor'', [CHR 0xA0, CHR '':'', CHR ''b''], ''nocolon''],
            args_include_tests = False\<rparr> empty_tree_fs
       = Inl (ValueError (''Invalid --forbid entry (empty source layer): '' @
                          [CHR 0xA0, CHR '':'', CHR ''b'']))
   \<and> exit_status
        (main \<lparr>args_root = [''pkg''], args_package_name = '''', args_layers = ''domain,adaptor'',
               args_forbid = [''domain:adaptor'', [CHR 0xA0, CHR '':'', CHR ''b''], ''nocolon''],
               args_include_tests = False\<rparr> empty_tree_fs) = 1"
proof -
  let ?a = "\<lparr>args_root = [''pkg''], args_package_name = '''', args_layers = ''domain,adaptor'',
            args_forbid = [''domain:adaptor'', [CHR 0xA0, CHR '':'', CHR ''b''], ''nocolon''],
            args_include_tests = False\<rparr>"
  have good: "\<not> malformed_entry ''domain:adaptor''"
    by (simp add: malformed_entry_def entry_source_def entry_destinations_def parse_csv_def
        strip_def is_space_def)
  have bad: "malformed_entry [CHR 0xA0, CHR '':'', CHR ''b'']"
    by (simp add: malformed_entry_def entry_source_def strip_def is_space_def)
  have msg: "entry_error [CHR 0xA0, CHR '':'', CHR ''b''] =
      ''Invalid --forbid entry (empty source layer): '' @ [CHR 0xA0, CHR '':'', CHR ''b'']"
    by (simp add: entry_error_def entry_source_def strip_def is_space_def)
  have first: "find malformed_entry (args_forbid ?a) = Some [CHR 0xA0, CHR '':'', CHR ''b'']"
    using good bad by simp
  have root: "fs_exists empty_tree_fs (args_root ?a) \<and> fs_is_dir empty_tree_fs (args_root ?a)"
    by (simp add: empty_tree_fs_def)
  from bad have hyp: "\<not> fs_exists empty_tree_fs (args_root ?a) \<or> \<not> fs_is_dir empty_tree_fs (args_root ?a)
           \<or> (\<exists>entry\<in>set (args_forbid ?a). malformed_entry entry)"
    by simp
  have status: "exit_status (main ?a empty_tree_fs) = 1"
    using configuration_error_aborts [OF hyp] by blast
  have "\<exists>entry. find malformed_entry (args_forbid ?a) = Some entry \<and>
      main ?a empty_tree_fs = Inl (ValueError (entry_error entry))"
    using root configuration_error_aborts [OF hyp] by blast
  with first have "main ?a empty_tree_fs =
      Inl (ValueError (entry_error [CHR 0xA0, CHR '':'', CHR ''b'']))"
    by auto
  with bad msg status show ?thesis
    by simp
qed

theorem missing_root_exits_with_status_1:
  "configure missing_root_args nothing_fs =
     Inl (SystemExit ''--root must be an existing directory: missing'')
   \<and> \<not> (exit_status (main missing_root_args nothing_fs) \<noteq> 0
        \<and> exit_status (main missing_root_args nothing_fs) \<noteq> 1)"
  by (simp add: main_def configure_def missing_root_args_def nothing_fs_def exit_status_def
      path_str_def is_anchor_def)

subsection \<open>Order of the listing\<close>

lemma equal_elements_mset_eq:
  assumes "mset xs = mset ys"
    and "\<forall>x\<in>set xs. \<forall>y\<in>set xs. x = y"
  shows "xs = ys"
  using assms
proof (induction xs arbitrary: ys)
  case Nil
  then show ?case by simp
next
  case (Cons x xs)
  from Cons.prems(1) obtain y ys' where ys: "ys = y # ys'"
    by (cases ys) auto
  from Cons.prems(1) have "set ys = set (x # xs)"
    by (metis set_mset_mset)
  with ys Cons.prems(2) have "y = x"
    by auto
  with Cons.prems ys have "xs = ys'"
    by (intro Cons.IH) auto
  with ys \<open>y = x\<close> show ?case
    by simp
qed

lemma filter_single_class:
  assumes "mset xs = mset ys"
    and "\<forall>x\<in>set xs. \<forall>y\<in>set xs. Q x \<and> Q y \<longrightarrow> x = y"
  shows "filter Q xs = filter Q ys"
proof (rule equal_elements_mset_eq)
  from assms(1) show "mset (filter Q xs) = mset (filter Q ys)"
    by (metis mset_filter)
next
  from assms(2) show "\<forall>x\<in>set (filter Q xs). \<forall>y\<in>set (filter Q xs). x = y"
    by auto
qed

lemma filter_concat_restrict:
  assumes "\<And>x. x \<in> set xs \<Longrightarrow> \<not> Q x \<Longrightarrow> filter P (f x) = []"
  shows "filter P (concat (map f xs)) = filter P (concat (map f (filter Q xs)))"
  using assms by (induction xs) auto

lemma key_class_order_independent:
  assumes perm: "mset fps' = mset fps"
    and inj: "inj_on path_str (set fps)"
  shows "filter (\<lambda>v. violation_key v = k) (concat (map (file_violations cfg read_source) fps')) =
         filter (\<lambda>v. violation_key v = k) (concat (map (file_violations cfg read_source) fps))"
proof -
  let ?P = "\<lambda>v. violation_key v = k" and ?Q = "\<lambda>fp. path_str fp = fst k"
  let ?f = "file_violations cfg read_source"
  have outside: "filter ?P (?f fp) = []" if "\<not> ?Q fp" for fp
  proof -
    have "\<not> ?P v" if "v \<in> set (?f fp)" for v
      using that \<open>\<not> ?Q fp\<close> file_violations_path [of v cfg read_source fp]
      by (auto simp: violation_key_def)
    then show ?thesis
      by (simp add: filter_empty_conv)
  qed
  from inj have single: "\<forall>x\<in>set fps. \<forall>y\<in>set fps. ?Q x \<and> ?Q y \<longrightarrow> x = y"
    by (auto simp: inj_on_def)
  have "filter ?Q fps = filter ?Q fps'"
    using perm [symmetric] single by (rule filter_single_class)
  moreover have "filter ?P (concat (map ?f fps)) = filter ?P (concat (map ?f (filter ?Q fps)))"
    by (rule filter_concat_restrict) (rule outside)
  moreover have "filter ?P (concat (map ?f fps')) = filter ?P (concat (map ?f (filter ?Q fps')))"
    by (rule filter_concat_restrict) (rule outside)
  ultimately show ?thesis
    by simp
qed

lemma sorted_violations_order_independent:
  assumes perm: "mset fps' = mset fps"
    and inj: "inj_on path_str (set fps)"
  shows "sorted_violations (concat (map (file_violations cfg read_source) fps')) =
         sorted_violations (concat (map (file_violations cfg read_source) fps))"
  unfolding sorted_violations_def
proof (rule properties_for_sort_key)
  let ?f = "file_violations cfg read_source"
  show "mset (sort_key violation_key (concat (map ?f fps))) = mset (concat (map ?f fps'))"
    by (simp add: mset_concat_map perm)
  show "sorted (map violation_key (sort_key violation_key (concat (map ?f fps))))"
    by simp
  fix v
  have "filter (\<lambda>w. violation_key w = violation_key v)
          (sort_key violation_key (concat (map ?f fps))) =
        filter (\<lambda>w. violation_key w = violation_key v) (concat (map ?f fps'))"
    using key_class_order_independent [OF perm inj, of "violation_key v" cfg read_source]
    by (simp add: sort_key_stable)
  moreover have "(\<lambda>w. violation_key v = violation_key w) = (\<lambda>w. violation_key w = violation_key v)"
    by auto
  ultimately show "filter (\<lambda>w. violation_key v = violation_key w)
          (sort_key violation_key (concat (map ?f fps))) =
        filter (\<lambda>w. violation_key v = violation_key w) (concat (map ?f fps'))"
    by simp
qed


lemma configure_ignores_discovery:
  "configure a (fs\<lparr>fs_rglob_py := discovery\<rparr>) = configure a fs"
  by (simp add: configure_def)

text \<open>
  Claim C3, as the code has it. For a run whose scan completes, the listing that \<open>main\<close>
  prints is the violations sorted by the key (file path, line, column): ascending, a
  rearrangement of the violations found, and stable, so that violations with the same key
  (the names of one multi-name import) keep the order in which the import walk gave them;
  the key alone does not order them strictly. The result of the run does not depend on the
  order of discovery: with the same files discovered in any other order, distinct files having
  distinct path strings, \<open>main\<close> returns and prints the same.
\<close>

theorem listing_sorted_order_independent:
  assumes conf: "configure a fs = Inr cfg"
    and scan: "scan_files cfg (fs_source fs)
                 (iter_python_files fs (cfg_root_dir cfg) (args_include_tests a)) [] =
               Inr all_violations"
    and perm: "mset files = mset (fs_rglob_py fs (args_root a))"
    and inj: "inj_on path_str (set (fs_rglob_py fs (args_root a)))"
  shows "main a fs =
           Inr (if all_violations = [] then (0, [''OK: no layered-import violations found.''])
                else (1, ''Layered-import violations:'' #
                         map (\<lambda>v. ''- '' @ format_violation v) (sorted_violations all_violations)))
         \<and> sorted (map violation_key (sorted_violations all_violations))
         \<and> mset (sorted_violations all_violations) = mset all_violations
         \<and> (\<forall>k. filter (\<lambda>v. violation_key v = k) (sorted_violations all_violations) =
                  filter (\<lambda>v. violation_key v = k) all_violations)
         \<and> main a (fs\<lparr>fs_rglob_py := (\<lambda>p. files)\<rparr>) = main a fs"
proof -
  let ?keep = "\<lambda>p. \<not> (''__pycache__'' \<in> set p) \<and> \<not> (\<not> args_include_tests a \<and> ''tests'' \<in> set p)"
  let ?fps = "filter ?keep (fs_rglob_py fs (args_root a))"
  let ?fps' = "filter ?keep files"
  let ?f = "file_violations cfg (fs_source fs)"
  let ?fs' = "fs\<lparr>fs_rglob_py := (\<lambda>p. files)\<rparr>"
  from conf have root: "cfg_root_dir cfg = args_root a"
    using configure_Inr by blast
  have fps: "iter_python_files fs (cfg_root_dir cfg) (args_include_tests a) = ?fps"
    and fps': "iter_python_files ?fs' (cfg_root_dir cfg) (args_include_tests a) = ?fps'"
    by (simp_all add: iter_python_files_def root)
  have here: "main a fs =
           Inr (if all_violations = [] then (0, [''OK: no layered-import violations found.''])
                else (1, ''Layered-import violations:'' #
                         map (\<lambda>v. ''- '' @ format_violation v) (sorted_violations all_violations)))"
    using conf scan by (simp add: main_def)
  have mset_fps: "mset ?fps' = mset ?fps"
    by (simp only: mset_filter perm)
  then have set_fps: "set ?fps' = set ?fps"
    by (rule mset_eq_setD)
  have inj_fps: "inj_on path_str (set ?fps)"
    using inj by (rule inj_on_subset) auto
  from scan have ok: "\<forall>fp\<in>set ?fps. \<exists>vs. violations_for_file (cfg_root_dir cfg) fp
        (cfg_package_name cfg) (cfg_layer_names cfg) (cfg_forbid cfg) (fs_source fs) = Inr vs"
    and all: "all_violations = concat (map ?f ?fps)"
    unfolding fps by (simp_all add: scan_files_Inr_iff)
  from ok set_fps have scan': "scan_files cfg (fs_source fs) ?fps' [] = Inr (concat (map ?f ?fps'))"
    by (simp add: scan_files_Inr_iff)
  have same_sorted: "sorted_violations (concat (map ?f ?fps')) = sorted_violations all_violations"
    unfolding all using mset_fps inj_fps by (rule sorted_violations_order_independent)
  have same_mset: "mset (concat (map ?f ?fps')) = mset all_violations"
    unfolding all by (simp only: mset_concat_map mset_fps)
  have "concat (map ?f ?fps') = [] \<longleftrightarrow> mset (concat (map ?f ?fps')) = {#}"
    by (simp only: mset_zero_iff)
  also have "\<dots> \<longleftrightarrow> mset all_violations = {#}"
    by (simp only: same_mset)
  also have "\<dots> \<longleftrightarrow> all_violations = []"
    by (simp only: mset_zero_iff)
  finally have same_empty: "concat (map ?f ?fps') = [] \<longleftrightarrow> all_violations = []" .
  have "main a ?fs' =
           Inr (if all_violations = [] then (0, [''OK: no layered-import violations found.''])
                else (1, ''Layered-import violations:'' #
                         map (\<lambda>v. ''- '' @ format_violation v) (sorted_violations all_violations)))"
    using conf scan' same_sorted same_empty
    by (simp add: main_def configure_ignores_discovery fps')
  with here have there: "main a ?fs' = main a fs"
    by simp
  have "sorted (map violation_key (sorted_violations all_violations))"
    and "mset (sorted_violations all_violations) = mset all_violations"
    and "\<forall>k. filter (\<lambda>v. violation_key v = k) (sorted_violations all_violations) =
             filter (\<lambda>v. violation_key v = k) all_violations"
    by (simp_all add: sorted_violations_def sort_key_stable)
  with here there show ?thesis
    by blast
qed


theorem listing_sorted_order_independent_witness:
  "main \<lparr>args_root = [''pkg''], args_package_name = '''', args_layers = ''domain,service'',
          args_forbid = [], args_include_tests = False\<rparr>
        \<lparr>fs_exists = (\<lambda>p. True), fs_is_dir = (\<lambda>p. True),
         fs_rglob_py = (\<lambda>p. [[''pkg'', ''domain'', ''b.py''], [''pkg'', ''domain'', ''a.py'']]),
         fs_source = (\<lambda>p. Module (Other [Import [Alias ''pkg.service.api'' None] 2 0]))\<rparr>
     = Inr (1, [''Layered-import violations:'',
                ''- pkg/domain/a.py:2:1 [domain -> service] pkg.service.api :: Forbidden import direction by configured layer rules.'',
                ''- pkg/domain/b.py:2:1 [domain -> service] pkg.service.api :: Forbidden import direction by configured layer rules.''])
   \<and> main \<lparr>args_root = [''pkg''], args_package_name = '''', args_layers = ''domain,service'',
          args_forbid = [], args_include_tests = False\<rparr>
        \<lparr>fs_exists = (\<lambda>p. True), fs_is_dir = (\<lambda>p. True),
         fs_rglob_py = (\<lambda>p. [[''pkg'', ''domain'', ''a.py''], [''pkg'', ''domain'', ''b.py'']]),
         fs_source = (\<lambda>p. Module (Other [Import [Alias ''pkg.service.api'' None] 2 0]))\<rparr>
     = Inr (1, [''Layered-import violations:'',
                ''- pkg/domain/a.py:2:1 [domain -> service] pkg.service.api :: Forbidden import direction by configured layer rules.'',
                ''- pkg/domain/b.py:2:1 [domain -> service] pkg.service.api :: Forbidden import direction by configured layer rules.''])"
proof -
  let ?a = "\<lparr>args_root = [''pkg''], args_package_name = '''', args_layers = ''domain,service'',
          args_forbid = [], args_include_tests = False\<rparr>"
  let ?src = "\<lambda>p::path. Module (Other [Import [Alias ''pkg.service.api'' None] 2 0])"
  let ?fs = "\<lparr>fs_exists = (\<lambda>p. True), fs_is_dir = (\<lambda>p. True),
         fs_rglob_py = (\<lambda>p. [[''pkg'', ''domain'', ''b.py''], [''pkg'', ''domain'', ''a.py'']]),
         fs_source = ?src\<rparr>"
  let ?cfg = "\<lparr>cfg_root_dir = [''pkg''], cfg_package_name = ''pkg'',
         cfg_layer_names = {''domain'', ''service''}, cfg_forbid = default_forbid\<rparr>"
  let ?v = "\<lambda>name. \<lparr>file_path = [''pkg'', ''domain'', name], file_layer_name = ''domain'',
         imported_module = ''pkg.service.api'', imported_layer_name = ''service'',
         lineno = 2, col_offset = 0,
         reason = ''Forbidden import direction by configured layer rules.''\<rparr>"
  have layers: "parse_csv ''domain,service'' = [''domain'', ''service'']"
    by (simp add: parse_csv_def strip_def is_space_def)
  have pkg: "strip '''' = ''''"
    by (simp add: strip_def)
  have conf: "configure ?a ?fs = Inr ?cfg"
    by (simp add: configure_def parse_forbid_entries_def layers pkg path_name_def is_anchor_def)
  have one: "violations_for_file [''pkg''] [''pkg'', ''domain'', name] ''pkg''
      {''domain'', ''service''} default_forbid ?src = Inr [?v name]" for name
    by (simp add: violations_for_file_def file_layer_def relative_to_def iter_imports_def
        walk_def imported_layer_def startswith_def removeprefix_def split_max1_def
        default_forbid_def)
  have scan: "scan_files ?cfg (fs_source ?fs)
      (iter_python_files ?fs (cfg_root_dir ?cfg) (args_include_tests ?a)) [] =
      Inr [?v ''b.py'', ?v ''a.py'']"
    by (simp add: iter_python_files_def one)
  have perm: "mset [[''pkg'', ''domain'', ''a.py''], [''pkg'', ''domain'', ''b.py'']] =
      mset (fs_rglob_py ?fs (args_root ?a))"
    by simp
  have inj: "inj_on path_str (set (fs_rglob_py ?fs (args_root ?a)))"
    by (simp add: path_str_def is_anchor_def)
  have sorted: "sorted_violations [?v ''b.py'', ?v ''a.py''] = [?v ''a.py'', ?v ''b.py'']"
    by (simp add: sorted_violations_def violation_key_def path_str_def is_anchor_def)
  have line: "format_violation (?v name) =
      ''pkg/domain/'' @ name @ '':2:1 [domain -> service] pkg.service.api :: Forbidden import direction by configured layer rules.''"
    for name
    by (simp add: format_violation_def path_str_def is_anchor_def str_int_def)
  show ?thesis
    using listing_sorted_order_independent [OF conf scan perm inj]
    by (simp add: sorted line)
qed

lemma two_names_scan:
  "scan_files pkg_default_config two_names_source [[''pkg'', ''domain'', ''a.py'']] [] =
     Inr [\<lparr>file_path = [''pkg'', ''domain'', ''a.py''], file_layer_name = ''domain'',
            imported_module = ''pkg.dataset.x'', imported_layer_name = ''dataset'',
            lineno = 1, col_offset = 0,
            reason = ''Forbidden import direction by configured layer rules.''\<rparr>,
           \<lparr>file_path = [''pkg'', ''domain'', ''a.py''], file_layer_name = ''domain'',
            imported_module = ''pkg.adaptor.y'', imported_layer_name = ''adaptor'',
            lineno = 1, col_offset = 0,
            reason = ''Forbidden import direction by configured layer rules.''\<rparr>]"
  by (simp add: pkg_default_config_def two_names_source_def violations_for_file_def
      file_layer_def relative_to_def iter_imports_def walk_def imported_layer_def
      startswith_def removeprefix_def split_max1_def default_forbid_def)

theorem multi_name_import_ties:
  "scan_files pkg_default_config two_names_source [[''pkg'', ''domain'', ''a.py'']] [] =
     Inr [\<lparr>file_path = [''pkg'', ''domain'', ''a.py''], file_layer_name = ''domain'',
            imported_module = ''pkg.dataset.x'', imported_layer_name = ''dataset'',
            lineno = 1, col_offset = 0,
            reason = ''Forbidden import direction by configured layer rules.''\<rparr>,
           \<lparr>file_path = [''pkg'', ''domain'', ''a.py''], file_layer_name = ''domain'',
            imported_module = ''pkg.adaptor.y'', imported_layer_name = ''adaptor'',
            lineno = 1, col_offset = 0,
            reason = ''Forbidden import direction by configured layer rules.''\<rparr>]
   \<and> \<not> strictly_ascending
         (sorted_violations
            [\<lparr>file_path = [''pkg'', ''domain'', ''a.py''], file_layer_name = ''domain'',
              imported_module = ''pkg.dataset.x'', imported_layer_name = ''dataset'',
              lineno = 1, col_offset = 0,
              reason = ''Forbidden import direction by configured layer rules.''\<rparr>,
             \<lparr>file_path = [''pkg'', ''domain'', ''a.py''], file_layer_name = ''domain'',
              imported_module = ''pkg.adaptor.y'', imported_layer_name = ''adaptor'',
              lineno = 1, col_offset = 0,
              reason = ''Forbidden import direction by configured layer rules.''\<rparr>])"
  using two_names_scan
  by (simp add: strictly_ascending_def sorted_violations_def violation_key_def)

end
